theory Spec2Isabelle
  imports Main "HOL-Library.AList"
begin

section \<open>Data model\<close>

text \<open>
  Modelled from the spec: the types \<open>RecordIdentity\<close>, \<open>Record\<close>,
  \<open>RecordRelationshipIdentity\<close> and \<open>RecordChangeset\<close> are imported by
  \<^verbatim>\<open>record-transform-buffer.ts\<close> from modules that are not among the sources; their fields
  are those of the spec's data model. A field that may be absent is an \<open>option\<close>.
  Attribute values are opaque here and written as strings.
\<close>

record RecordIdentity =
  type' :: string
  id' :: string

datatype RelationshipValue =
  HasOne "RecordIdentity option"
| HasMany "RecordIdentity list"

record Record = RecordIdentity +
  keys :: "(string \<times> string) list option"
  attributes :: "(string \<times> string) list option"
  relationships :: "(string \<times> RelationshipValue) list option"

text \<open>
  An edge \<open>record.relationship \<rightarrow> relatedRecord\<close>. The field \<open>relationship\<close> is \<open>None\<close> where
  the JavaScript value is \<^verbatim>\<open>undefined\<close>: \<^verbatim>\<open>stopTrackingChanges\<close> can build such an edge from a
  key that holds no \<^verbatim>\<open>::\<close>.
\<close>

record RecordRelationshipIdentity =
  record' :: RecordIdentity
  relationship :: "string option"
  relatedRecord :: RecordIdentity

record RecordChangeset =
  setRecords :: "Record list option"
  removeRecords :: "RecordIdentity list option"
  addInverseRelationships :: "RecordRelationshipIdentity list option"
  removeInverseRelationships :: "RecordRelationshipIdentity list option"

datatype error =
  NotTrackingChanges
    \<comment> \<open>\<^verbatim>\<open>Error("Changes are not being tracked. Call 'startTrackingChanges' before 'stopTrackingChanges'")\<close>\<close>
| Thrown string
    \<comment> \<open>any other thrown or rejected value, named by its message\<close>

text \<open>
  A \<^verbatim>\<open>Dict<V>\<close> is a JavaScript object used as a string-keyed table. It is an association
  list with pairwise distinct keys, in insertion order. That is what the object is for keys
  that are neither array indices nor names found on \<^verbatim>\<open>Object.prototype\<close>, such as the keys
  \<^verbatim>\<open>type:id\<close> and \<^verbatim>\<open>type:id::relationship\<close> that the buffer writes: \<^verbatim>\<open>Object.keys\<close> then
  enumerates in insertion order. \<^verbatim>\<open>d[k]\<close> is \<open>map_of d k\<close>, \<^verbatim>\<open>d[k] = v\<close> is
  \<open>AList.update k v d\<close> (in place when the key exists, appended otherwise) and
  \<^verbatim>\<open>delete d[k]\<close> is \<open>AList.delete k d\<close>. A stored \<^verbatim>\<open>null\<close> is the value \<open>None\<close>.
\<close>

type_synonym 'v Dict = "(string \<times> 'v) list"

text \<open>
  The two identity serializers of \<^verbatim>\<open>@orbit/records\<close> that the buffer imports are not among
  the sources; they are parameters of the model.
\<close>

record externals =
  serializeRecordIdentity :: "RecordIdentity \<Rightarrow> string"
  deserializeRecordIdentity :: "string \<Rightarrow> RecordIdentity"

text \<open>
  Modelled from the spec: \<^verbatim>\<open>objectValues\<close> of \<^verbatim>\<open>@orbit/utils\<close> is not among the sources;
  on a table it lists the stored values in key order.
\<close>

definition objectValues :: "'v Dict \<Rightarrow> 'v list" where
  "objectValues d = map snd d"

text \<open>
  Modelled from the spec: the record key is \<^verbatim>\<open>type:id\<close>. This instance of the serializers
  is used where a concrete one is needed; the deserializer reads the key back at its first
  two \<^verbatim>\<open>:\<close> separators.
\<close>

definition key_of_identity :: "RecordIdentity \<Rightarrow> string" where
  "key_of_identity i = type' i @ '':'' @ id' i"

definition identity_of_key :: "string \<Rightarrow> RecordIdentity" where
  "identity_of_key s =
     \<lparr> type' = takeWhile (\<lambda>c. c \<noteq> CHR '':'') s,
       id' = takeWhile (\<lambda>c. c \<noteq> CHR '':'') (drop 1 (dropWhile (\<lambda>c. c \<noteq> CHR '':'') s)) \<rparr>"

definition orbit_records :: externals where
  "orbit_records =
     \<lparr> serializeRecordIdentity = key_of_identity,
       deserializeRecordIdentity = identity_of_key \<rparr>"

section \<open>The transform buffer\<close>

subsection \<open>Edge keys\<close>

definition serializeRecordRelationshipIdentity ::
  "externals \<Rightarrow> RecordRelationshipIdentity \<Rightarrow> string" where
  "serializeRecordRelationshipIdentity E rri =
     serializeRecordIdentity E (record' rri) @ ''::'' @
       (case relationship rri of Some r \<Rightarrow> r | None \<Rightarrow> ''undefined'')"

text \<open>\<^verbatim>\<open>s.split('::')\<close>: the pieces of \<open>s\<close> between the occurrences of \<^verbatim>\<open>::\<close>, found left to
  right; \<open>acc\<close> holds the current piece, reversed.\<close>

fun split_colons :: "string \<Rightarrow> string \<Rightarrow> string list" where
  "split_colons acc (a # b # cs) =
     (if a = CHR '':'' \<and> b = CHR '':'' then rev acc # split_colons [] cs
      else split_colons (a # acc) (b # cs))"
| "split_colons acc [a] = [rev (a # acc)]"
| "split_colons acc [] = [rev acc]"

text \<open>\<^verbatim>\<open>const [record, relationship] = rri.split('::')\<close>: the first two pieces; the second
  is \<^verbatim>\<open>undefined\<close> when there is only one.\<close>

definition deserializeRecordRelationshipIdentity ::
  "externals \<Rightarrow> string \<Rightarrow> RecordIdentity \<times> string option" where
  "deserializeRecordRelationshipIdentity E rri =
     (case split_colons [] rri of
        [] \<Rightarrow> (deserializeRecordIdentity E [], None)
      | [r] \<Rightarrow> (deserializeRecordIdentity E r, None)
      | r # rel # _ \<Rightarrow> (deserializeRecordIdentity E r, Some rel))"

subsection \<open>State\<close>

record RecordTransformBufferState =
  records :: "Record option Dict"
  inverseRelationships :: "RecordRelationshipIdentity option Dict Dict"

text \<open>The protected fields \<^verbatim>\<open>_state\<close> and \<^verbatim>\<open>_delta\<close>; \<open>None\<close> is \<^verbatim>\<open>undefined\<close>.\<close>

record RecordTransformBuffer =
  buf_state :: RecordTransformBufferState
  buf_delta :: "RecordTransformBufferState option"

definition empty_state :: RecordTransformBufferState where
  "empty_state = \<lparr> records = [], inverseRelationships = [] \<rparr>"

definition empty_changeset :: RecordChangeset where
  "empty_changeset =
     \<lparr> setRecords = None, removeRecords = None,
       addInverseRelationships = None, removeInverseRelationships = None \<rparr>"

text \<open>The constructor calls \<^verbatim>\<open>reset()\<close>; no session is open.\<close>

definition new_RecordTransformBuffer :: RecordTransformBuffer where
  "new_RecordTransformBuffer = \<lparr> buf_state = empty_state, buf_delta = None \<rparr>"

text \<open>\<^verbatim>\<open>reset(state = {records: {}, inverseRelationships: {}})\<close>: the default applies when
  no state is passed.\<close>

definition reset :: "RecordTransformBufferState option \<Rightarrow> RecordTransformBuffer \<Rightarrow> RecordTransformBuffer" where
  "reset st b = b\<lparr> buf_state := (case st of None \<Rightarrow> empty_state | Some s \<Rightarrow> s) \<rparr>"

text \<open>The method has no check and no \<^verbatim>\<open>throw\<close>: it always returns.\<close>

definition startTrackingChanges :: "RecordTransformBuffer \<Rightarrow> RecordTransformBuffer" where
  "startTrackingChanges b = b\<lparr> buf_delta := Some empty_state \<rparr>"

text \<open>\<^verbatim>\<open>cs.f = cs.f ?? []; cs.f.push(x)\<close>\<close>

definition push :: "'a list option \<Rightarrow> 'a \<Rightarrow> 'a list option" where
  "push l x = Some ((case l of None \<Rightarrow> [] | Some xs \<Rightarrow> xs) @ [x])"

definition record_entry :: "externals \<Rightarrow> string \<times> Record option \<Rightarrow> RecordChangeset \<Rightarrow> RecordChangeset" where
  "record_entry E = (\<lambda>(rid, rv) cs.
     (case rv of
        None \<Rightarrow> cs\<lparr> removeRecords := push (removeRecords cs) (deserializeRecordIdentity E rid) \<rparr>
      | Some r \<Rightarrow> cs\<lparr> setRecords := push (setRecords cs) r \<rparr>))"

definition edge_entry ::
  "externals \<Rightarrow> RecordIdentity \<Rightarrow> string \<times> RecordRelationshipIdentity option \<Rightarrow>
     RecordChangeset \<Rightarrow> RecordChangeset" where
  "edge_entry E related = (\<lambda>(rel, rv) cs.
     (let (rec, relname) = deserializeRecordRelationshipIdentity E rel;
          rri = \<lparr> record' = rec, relationship = relname, relatedRecord = related \<rparr>
      in case rv of
           None \<Rightarrow> cs\<lparr> removeInverseRelationships := push (removeInverseRelationships cs) rri \<rparr>
         | Some _ \<Rightarrow> cs\<lparr> addInverseRelationships := push (addInverseRelationships cs) rri \<rparr>))"

text \<open>
  The two loops of \<^verbatim>\<open>stopTrackingChanges\<close> walk \<^verbatim>\<open>Object.keys\<close> of a table and read each
  key back, which is a walk over the entries of the table.
\<close>

definition changeset_of_delta :: "externals \<Rightarrow> RecordTransformBufferState \<Rightarrow> RecordChangeset" where
  "changeset_of_delta E d =
     fold (\<lambda>(rid, rels). fold (edge_entry E (deserializeRecordIdentity E rid)) rels)
       (inverseRelationships d)
       (fold (record_entry E) (records d) empty_changeset)"

definition stopTrackingChanges ::
  "externals \<Rightarrow> RecordTransformBuffer \<Rightarrow> error + RecordChangeset \<times> RecordTransformBuffer" where
  "stopTrackingChanges E b =
     (case buf_delta b of
        None \<Rightarrow> Inl NotTrackingChanges
      | Some d \<Rightarrow> Inr (changeset_of_delta E d, b\<lparr> buf_delta := None \<rparr>))"

subsection \<open>Records\<close>

text \<open>\<^verbatim>\<open>this._state.records[key] ?? undefined\<close>: a missing key and a stored \<^verbatim>\<open>null\<close> both
  give \<^verbatim>\<open>undefined\<close>.\<close>

definition getRecordSync :: "externals \<Rightarrow> RecordTransformBuffer \<Rightarrow> RecordIdentity \<Rightarrow> Record option" where
  "getRecordSync E b identity =
     (case map_of (records (buf_state b)) (serializeRecordIdentity E identity) of
        Some (Some r) \<Rightarrow> Some r
      | _ \<Rightarrow> None)"

datatype TypeOrIdentities =
  ByType string
| ByIdentities "RecordIdentity list"
| NotSpecified

text \<open>
  With a string argument the source evaluates
  \<^verbatim>\<open>objectValues(this._state.records[typeOrIdentities])\<close>: the type name itself is used as a
  property name of the table of records. The name is supplied by the caller, so the read
  is written out in full: an own property of the table (a stored record or a stored
  \<^verbatim>\<open>null\<close>), else a property that the table inherits from \<^verbatim>\<open>Object.prototype\<close>, else
  \<^verbatim>\<open>undefined\<close>.
\<close>

datatype table_entry =
  Undefined
| Null
| Stored Record
| Inherited string

definition Object_prototype_names :: "string list" where
  "Object_prototype_names =
     [''constructor'', ''__proto__'', ''hasOwnProperty'', ''isPrototypeOf'',
      ''propertyIsEnumerable'', ''toLocaleString'', ''toString'', ''valueOf'',
      ''__defineGetter__'', ''__defineSetter__'', ''__lookupGetter__'', ''__lookupSetter__'']"

definition read_property :: "Record option Dict \<Rightarrow> string \<Rightarrow> table_entry" where
  "read_property d name =
     (case map_of d name of
        Some (Some r) \<Rightarrow> Stored r
      | Some None \<Rightarrow> Null
      | None \<Rightarrow> if name \<in> set Object_prototype_names then Inherited name else Undefined)"

text \<open>
  What \<^verbatim>\<open>getRecordsSync\<close> returns: a list of records, or whatever \<^verbatim>\<open>objectValues\<close> makes of
  the entry it is handed. \<^verbatim>\<open>objectValues\<close> of \<^verbatim>\<open>@orbit/utils\<close> is not among the sources; its
  answer for an entry that is not a table of records is the parameter \<open>ov\<close>, of any type
  (a failure, a list of field values, an empty list).
\<close>

datatype 'r records_read =
  Records "Record list"
| ObjectValues_result 'r

definition getRecordsSync ::
  "externals \<Rightarrow> (table_entry \<Rightarrow> 'r) \<Rightarrow> RecordTransformBuffer \<Rightarrow> TypeOrIdentities \<Rightarrow>
     error + 'r records_read" where
  "getRecordsSync E ov b typeOrIdentities =
     (case typeOrIdentities of
        ByType t \<Rightarrow> Inr (ObjectValues_result (ov (read_property (records (buf_state b)) t)))
      | ByIdentities identities \<Rightarrow> Inr (Records (List.map_filter (getRecordSync E b) identities))
      | NotSpecified \<Rightarrow> Inl (Thrown ''typeOrIdentities must be specified in getRecordsSync''))"

definition setRecordSync :: "externals \<Rightarrow> Record \<Rightarrow> RecordTransformBuffer \<Rightarrow> RecordTransformBuffer" where
  "setRecordSync E r b =
     (let k = serializeRecordIdentity E (RecordIdentity.truncate r);
          st = buf_state b
      in \<lparr> buf_state = st\<lparr> records := AList.update k (Some r) (records st) \<rparr>,
           buf_delta =
             (case buf_delta b of
                None \<Rightarrow> None
              | Some d \<Rightarrow> Some (d\<lparr> records := AList.update k (Some r) (records d) \<rparr>)) \<rparr>)"

definition setRecordsSync :: "externals \<Rightarrow> Record list \<Rightarrow> RecordTransformBuffer \<Rightarrow> RecordTransformBuffer" where
  "setRecordsSync E rs b = fold (setRecordSync E) rs b"

text \<open>The found record, not the argument, names the key that is deleted.\<close>

definition removeRecordSync ::
  "externals \<Rightarrow> RecordIdentity \<Rightarrow> RecordTransformBuffer \<Rightarrow> Record option \<times> RecordTransformBuffer" where
  "removeRecordSync E recordIdentity b =
     (case getRecordSync E b recordIdentity of
        Some r \<Rightarrow>
          (let k = serializeRecordIdentity E (RecordIdentity.truncate r);
               st = buf_state b
           in (Some r,
               \<lparr> buf_state = st\<lparr> records := AList.delete k (records st) \<rparr>,
                 buf_delta =
                   (case buf_delta b of
                      None \<Rightarrow> None
                    | Some d \<Rightarrow> Some (d\<lparr> records := AList.update k None (records d) \<rparr>)) \<rparr>))
      | None \<Rightarrow> (None, b))"

text \<open>The body of the loop is the body of \<^verbatim>\<open>removeRecordSync\<close>, written out again in the
  source; the removed records are collected in order.\<close>

definition removeRecordsSync ::
  "externals \<Rightarrow> RecordIdentity list \<Rightarrow> RecordTransformBuffer \<Rightarrow> Record list \<times> RecordTransformBuffer" where
  "removeRecordsSync E recordIdentities b =
     fold (\<lambda>recordIdentity (rs, b').
             (case removeRecordSync E recordIdentity b' of
                (Some r, b'') \<Rightarrow> (rs @ [r], b'')
              | (None, b'') \<Rightarrow> (rs, b'')))
       recordIdentities ([], b)"

subsection \<open>The inverse-relationship index\<close>

definition underscore_getInverseRelationshipsSync ::
  "externals \<Rightarrow> RecordTransformBuffer \<Rightarrow> RecordIdentity \<Rightarrow> RecordRelationshipIdentity list" where
  "underscore_getInverseRelationshipsSync E b recordIdentity =
     (case map_of (inverseRelationships (buf_state b)) (serializeRecordIdentity E recordIdentity) of
        Some rels \<Rightarrow> List.map_filter (\<lambda>r. r) (objectValues rels)
      | None \<Rightarrow> [])"

text \<open>
  In the list branch the callback runs \<^verbatim>\<open>Array.prototype.push(relationships, edges)\<close>. That
  is a call of \<^verbatim>\<open>push\<close> on the object \<^verbatim>\<open>Array.prototype\<close> with two arguments: both are
  appended to \<^verbatim>\<open>Array.prototype\<close>, and the local array \<^verbatim>\<open>relationships\<close> is not written.
  The fold carries the pair of the local array and the elements appended to the prototype.
\<close>

definition Array_prototype_push :: "'a list \<Rightarrow> 'a \<Rightarrow> 'a \<Rightarrow> 'a list" where
  "Array_prototype_push proto x y = proto @ [x, y]"

definition getInverseRelationshipsSync ::
  "externals \<Rightarrow> RecordTransformBuffer \<Rightarrow> RecordIdentity + RecordIdentity list \<Rightarrow>
     RecordRelationshipIdentity list" where
  "getInverseRelationshipsSync E b recordIdentityOrIdentities =
     (case recordIdentityOrIdentities of
        Inr identities \<Rightarrow>
          fst (fold (\<lambda>r (relationships, proto).
                       (relationships,
                        Array_prototype_push proto relationships
                          (underscore_getInverseRelationshipsSync E b r)))
                 identities ([], []))
      | Inl identity \<Rightarrow> underscore_getInverseRelationshipsSync E b identity)"

definition add_edge :: "externals \<Rightarrow> RecordRelationshipIdentity \<Rightarrow> RecordTransformBufferState \<Rightarrow> RecordTransformBufferState" where
  "add_edge E rel st =
     (let ri = serializeRecordIdentity E (relatedRecord rel);
          rri = serializeRecordRelationshipIdentity E rel;
          rels = (case map_of (inverseRelationships st) ri of None \<Rightarrow> [] | Some d \<Rightarrow> d)
      in st\<lparr> inverseRelationships :=
               AList.update ri (AList.update rri (Some rel) rels) (inverseRelationships st) \<rparr>)"

definition addInverseRelationshipsSync ::
  "externals \<Rightarrow> RecordRelationshipIdentity list \<Rightarrow> RecordTransformBuffer \<Rightarrow> RecordTransformBuffer" where
  "addInverseRelationshipsSync E rels b =
     fold (\<lambda>rel b'. \<lparr> buf_state = add_edge E rel (buf_state b'),
                      buf_delta = map_option (add_edge E rel) (buf_delta b') \<rparr>)
       rels b"

text \<open>
  \<^verbatim>\<open>rels[rri] = null\<close> writes into the table stored under \<open>ri\<close>, when there is one. The
  source does nothing when \<^verbatim>\<open>this._state.inverseRelationships[ri]\<close> is missing.
\<close>

definition tombstone_edge :: "string \<Rightarrow> string \<Rightarrow> RecordTransformBufferState \<Rightarrow> RecordTransformBufferState" where
  "tombstone_edge ri rri st =
     (case map_of (inverseRelationships st) ri of
        None \<Rightarrow> st
      | Some rels \<Rightarrow>
          st\<lparr> inverseRelationships :=
                AList.update ri (AList.update rri None rels) (inverseRelationships st) \<rparr>)"

text \<open>
  For the delta the source runs
  \<^verbatim>\<open>const rels = this._delta.inverseRelationships[ri] ?? {}; rels[rri] = null;\<close>
  and stops there: a table made by \<^verbatim>\<open>?? {}\<close> is never stored into the delta. So the delta is
  written exactly when it already has a table under \<open>ri\<close>, which is \<open>tombstone_edge\<close> again.
\<close>

definition removeInverseRelationshipsSync ::
  "externals \<Rightarrow> RecordRelationshipIdentity list \<Rightarrow> RecordTransformBuffer \<Rightarrow> RecordTransformBuffer" where
  "removeInverseRelationshipsSync E rels b =
     fold (\<lambda>rel b'.
             (let ri = serializeRecordIdentity E (relatedRecord rel);
                  rri = serializeRecordRelationshipIdentity E rel
              in case map_of (inverseRelationships (buf_state b')) ri of
                   None \<Rightarrow> b'
                 | Some _ \<Rightarrow>
                     \<lparr> buf_state = tombstone_edge ri rri (buf_state b'),
                       buf_delta = map_option (tombstone_edge ri rri) (buf_delta b') \<rparr>))
       rels b"

subsection \<open>A tracked session as a sequence of mutator calls\<close>

datatype buffer_call =
  SetRecord Record
| SetRecords "Record list"
| RemoveRecord RecordIdentity
| RemoveRecords "RecordIdentity list"
| AddInverseRelationships "RecordRelationshipIdentity list"
| RemoveInverseRelationships "RecordRelationshipIdentity list"
| Reset "RecordTransformBufferState option"

fun call_buffer :: "externals \<Rightarrow> buffer_call \<Rightarrow> RecordTransformBuffer \<Rightarrow> RecordTransformBuffer" where
  "call_buffer E (SetRecord r) b = setRecordSync E r b"
| "call_buffer E (SetRecords rs) b = setRecordsSync E rs b"
| "call_buffer E (RemoveRecord i) b = snd (removeRecordSync E i b)"
| "call_buffer E (RemoveRecords is) b = snd (removeRecordsSync E is b)"
| "call_buffer E (AddInverseRelationships es) b = addInverseRelationshipsSync E es b"
| "call_buffer E (RemoveInverseRelationships es) b = removeInverseRelationshipsSync E es b"
| "call_buffer E (Reset st) b = reset st b"

definition run_calls :: "externals \<Rightarrow> buffer_call list \<Rightarrow> RecordTransformBuffer \<Rightarrow> RecordTransformBuffer" where
  "run_calls E cs b = fold (call_buffer E) cs b"


text \<open>
  The index is keyed by its content: every table holds each key once, and an edge that is
  stored sits under its own serialized key. The empty index is keyed so and every mutator of
  the buffer keeps it so.
\<close>

definition keyed_table :: "externals \<Rightarrow> RecordRelationshipIdentity option Dict \<Rightarrow> bool" where
  "keyed_table E rels \<longleftrightarrow>
     distinct (map fst rels) \<and>
     list_all (\<lambda>(k, v). case v of None \<Rightarrow> True
                          | Some e \<Rightarrow> k = serializeRecordRelationshipIdentity E e) rels"

definition keyed_index :: "externals \<Rightarrow> RecordTransformBufferState \<Rightarrow> bool" where
  "keyed_index E st \<longleftrightarrow> list_all (\<lambda>(ri, rels). keyed_table E rels) (inverseRelationships st)"

subsection \<open>Example data\<close>

definition jupiter :: Record where
  "jupiter = \<lparr> type' = ''planet'', id' = ''jupiter'', keys = None,
               attributes = Some [(''name'', ''Jupiter'')], relationships = None \<rparr>"


definition earth :: RecordIdentity where
  "earth = \<lparr> type' = ''planet'', id' = ''earth'' \<rparr>"

definition sol :: RecordIdentity where
  "sol = \<lparr> type' = ''star'', id' = ''sol'' \<rparr>"

definition sol_planets_earth :: RecordRelationshipIdentity where
  "sol_planets_earth = \<lparr> record' = sol, relationship = Some ''planets'', relatedRecord = earth \<rparr>"

section \<open>The update request of a source\<close>

text \<open>
  Modelled from the spec: \<^verbatim>\<open>Transform\<close>, \<^verbatim>\<open>RequestOptions\<close>, \<^verbatim>\<open>FullResponse\<close> and
  \<^verbatim>\<open>ResponseHints\<close> are declared in modules that are not among the sources. A transform is an
  identified, ordered list of operations; of the options only \<^verbatim>\<open>fullResponse\<close> is read, for
  its truth value.
\<close>

record RequestOptions =
  fullResponse :: bool

record 'op Transform =
  transformId :: string
  operations :: "'op list"
  options :: "RequestOptions option"

datatype ('d, 'x, 'op) FullResponse =
  FullResponse
    (data: "'d option")
    (details: "'x option")
    (transforms: "'op Transform list option")
    (sources: "(string \<times> ('d, 'x, 'op) FullResponse) list option")

record ('d, 'x) ResponseHints =
  hints_data :: "'d option"
  hints_details :: "'x option"

definition empty_hints :: "('d, 'x) ResponseHints" where
  "empty_hints = \<lparr> hints_data = None, hints_details = None \<rparr>"

text \<open>
  What a listener or a handler can read and write: the transform log of the source (the
  ids it holds, oldest first) and everything outside the source.
\<close>

record 'c SourceState =
  transformLog :: "string list"
  external :: 'c

text \<open>
  The calls made by the request, in order: listener number \<open>n\<close> of an event invoked for a
  transform id (with the error it is handed, if any), the handler \<^verbatim>\<open>_update\<close> invoked, an id
  appended to the transform log. The model keeps this record beside the state, out of the
  reach of listeners.
\<close>

datatype call =
  Listener string nat string "error option"
| Handler string
| LogAppend string

type_synonym 'c world = "'c SourceState \<times> call list"

text \<open>The call of listener \<open>n\<close> of the event \<open>name\<close> for a transform, and the calls of the
  first \<open>k\<close> listeners of the event, in order.\<close>

definition emitted :: "string \<Rightarrow> ('op, 'm) Transform_scheme \<Rightarrow> error option \<Rightarrow> nat \<Rightarrow> call" where
  "emitted name t err n = Listener name n (transformId t) err"

definition emission :: "string \<Rightarrow> ('op, 'm) Transform_scheme \<Rightarrow> error option \<Rightarrow> nat \<Rightarrow> call list" where
  "emission name t err k = map (emitted name t err) [0..<k]"

type_synonym ('d, 'x, 'op, 'c) before_listener =
  "'op Transform \<Rightarrow> ('d, 'x) ResponseHints \<Rightarrow> 'c SourceState \<Rightarrow>
     (error + (string \<times> ('d, 'x, 'op) FullResponse) option) \<times> ('d, 'x) ResponseHints \<times> 'c SourceState"

type_synonym 'c settled_listener = "'c SourceState \<Rightarrow> (error + unit) \<times> 'c SourceState"

text \<open>
  A source: the outcome of awaiting \<^verbatim>\<open>this.activated\<close> (\<open>None\<close> when it fulfils, the error
  when it rejects or throws), \<^verbatim>\<open>buildTransform\<close> with the source's transform builder, the
  listeners of each event in registration order, and the handler \<^verbatim>\<open>_update\<close>. A listener
  that returns \<open>Inl e\<close> has thrown \<open>e\<close> or returned a promise that rejects with \<open>e\<close>.
\<close>

record ('a, 'd, 'x, 'op, 'c) Source =
  activated :: "error option"
  buildTransform :: "'a \<Rightarrow> RequestOptions option \<Rightarrow> string option \<Rightarrow> 'op Transform"
  on_beforeUpdate :: "('d, 'x, 'op, 'c) before_listener list"
  on_update :: "('op Transform \<Rightarrow> ('d, 'x, 'op) FullResponse \<Rightarrow> 'c settled_listener) list"
  on_updateFail :: "('op Transform \<Rightarrow> error \<Rightarrow> 'c settled_listener) list"
  on_transform :: "('op Transform \<Rightarrow> 'c settled_listener) list"
  underscore_update ::
    "'op Transform \<Rightarrow> ('d, 'x) ResponseHints \<Rightarrow> 'c SourceState \<Rightarrow>
       (error + ('d, 'x, 'op) FullResponse) \<times> 'c SourceState"

text \<open>
  Modelled from the spec: \<^verbatim>\<open>fulfillInSeries\<close> of \<^verbatim>\<open>@orbit/core\<close> is not among the sources.
  The listeners run one after the other in registration order, each on the state and the
  hints object its predecessor left; the first failure ends the run with that error and the
  remaining listeners are skipped. \<open>n\<close> is the number of the first listener of the list.
\<close>

fun fulfillInSeries ::
  "(('d, 'x) ResponseHints \<Rightarrow> 'c SourceState \<Rightarrow> (error + 'r) \<times> ('d, 'x) ResponseHints \<times> 'c SourceState) list \<Rightarrow>
     (nat \<Rightarrow> call) \<Rightarrow> nat \<Rightarrow> ('d, 'x) ResponseHints \<Rightarrow> 'c world \<Rightarrow>
     (error + 'r list) \<times> ('d, 'x) ResponseHints \<times> 'c world" where
  "fulfillInSeries [] ev n hints w = (Inr [], hints, w)"
| "fulfillInSeries (l # ls) ev n hints (s, tr) =
     (case l hints s of
        (Inl e, hints', s') \<Rightarrow> (Inl e, hints', (s', tr @ [ev n]))
      | (Inr r, hints', s') \<Rightarrow>
          (case fulfillInSeries ls ev (Suc n) hints' (s', tr @ [ev n]) of
             (Inl e, hints'', w') \<Rightarrow> (Inl e, hints'', w')
           | (Inr rs, hints'', w') \<Rightarrow> (Inr (r # rs), hints'', w')))"

text \<open>
  Modelled from the spec: \<^verbatim>\<open>settleInSeries\<close> of \<^verbatim>\<open>@orbit/core\<close> is not among the sources.
  Every listener runs, in registration order, each awaited before the next; a failure of a
  listener is dropped.
\<close>

fun settleInSeries :: "'c settled_listener list \<Rightarrow> (nat \<Rightarrow> call) \<Rightarrow> nat \<Rightarrow> 'c world \<Rightarrow> 'c world" where
  "settleInSeries [] ev n w = w"
| "settleInSeries (l # ls) ev n (s, tr) = settleInSeries ls ev (Suc n) (snd (l s), tr @ [ev n])"

text \<open>
  Modelled from the spec: \<^verbatim>\<open>Source.transformed\<close> is not among the sources. Each transform in
  turn is appended to the transform log and then announced to the \<^verbatim>\<open>transform\<close> listeners.
\<close>

fun transformed :: "('a, 'd, 'x, 'op, 'c) Source \<Rightarrow> 'op Transform list \<Rightarrow> 'c world \<Rightarrow> 'c world" where
  "transformed src [] w = w"
| "transformed src (t # ts) (s, tr) =
     transformed src ts
       (settleInSeries (map (\<lambda>l. l t) (on_transform src))
          (emitted ''transform'' t None) 0
          (s\<lparr> transformLog := transformLog s @ [transformId t] \<rparr>, tr @ [LogAppend (transformId t)]))"

text \<open>
  Modelled from the spec: \<^verbatim>\<open>mapNamedFullResponses\<close> is not among the sources. The responses
  that listeners returned, as a table from the name of the contributing source to its
  response; a listener that returned nothing contributes nothing.
\<close>

definition mapNamedFullResponses ::
  "(string \<times> ('d, 'x, 'op) FullResponse) option list \<Rightarrow> (string \<times> ('d, 'x, 'op) FullResponse) list" where
  "mapNamedFullResponses rs =
     fold (\<lambda>r d. case r of None \<Rightarrow> d | Some (name, resp) \<Rightarrow> AList.update name resp d) rs []"

text \<open>
  \<^verbatim>\<open>__update__\<close>. The \<^verbatim>\<open>catch\<close> block is the two \<open>Inl\<close> branches: the modelled
  \<open>transformed\<close> and \<open>settleInSeries\<close> do not fail.
\<close>

definition dunder_update ::
  "('a, 'd, 'x, 'op, 'c) Source \<Rightarrow> 'op Transform \<Rightarrow> 'c world \<Rightarrow>
     (error + ('d, 'x, 'op) FullResponse) \<times> 'c world" where
  "dunder_update src transform w =
     (if transformId transform \<in> set (transformLog (fst w))
      then (Inr (FullResponse None None (Some []) None), w)
      else
        (case fulfillInSeries (map (\<lambda>l. l transform) (on_beforeUpdate src))
                (emitted ''beforeUpdate'' transform None) 0 empty_hints w of
           (Inl e, hints, w1) \<Rightarrow>
             (Inl e,
              settleInSeries (map (\<lambda>l. l transform e) (on_updateFail src))
                (emitted ''updateFail'' transform (Some e)) 0 w1)
         | (Inr otherResponses, hints, (s1, tr1)) \<Rightarrow>
             (case underscore_update src transform hints s1 of
                (Inl e, s2) \<Rightarrow>
                  (Inl e,
                   settleInSeries (map (\<lambda>l. l transform e) (on_updateFail src))
                     (emitted ''updateFail'' transform (Some e)) 0
                     (s2, tr1 @ [Handler (transformId transform)]))
              | (Inr response, s2) \<Rightarrow>
                  (let response' =
                         (if length otherResponses > 0
                          then FullResponse (data response) (details response)
                                 (transforms response)
                                 (Some (mapNamedFullResponses otherResponses))
                          else response);
                       w2 = (s2, tr1 @ [Handler (transformId transform)]);
                       w3 = (case transforms response' of
                               None \<Rightarrow> w2
                             | Some ts \<Rightarrow> if length ts > 0 then transformed src ts w2 else w2);
                       w4 = settleInSeries (map (\<lambda>l. l transform response') (on_update src))
                              (emitted ''update'' transform None) 0 w3
                   in (Inr response', w4)))))"

text \<open>
  Modelled from the spec: \<^verbatim>\<open>Source._enqueueRequest\<close> is not among the sources. The request
  is performed by \<^verbatim>\<open>__update__\<close> and its outcome is the outcome of the enqueued request.
\<close>

definition underscore_enqueueRequest_update ::
  "('a, 'd, 'x, 'op, 'c) Source \<Rightarrow> 'op Transform \<Rightarrow> 'c world \<Rightarrow>
     (error + ('d, 'x, 'op) FullResponse) \<times> 'c world" where
  "underscore_enqueueRequest_update src transform w = dunder_update src transform w"

text \<open>What \<^verbatim>\<open>update\<close> resolves with: a full response, a bare list of transforms, or the
  \<^verbatim>\<open>data\<close> of the response.\<close>

datatype ('d, 'x, 'op) update_result =
  ResultFull "('d, 'x, 'op) FullResponse"
| ResultTransforms "'op Transform list"
| ResultData "'d option"

definition wants_fullResponse :: "RequestOptions option \<Rightarrow> bool" where
  "wants_fullResponse opts = (case opts of None \<Rightarrow> False | Some o' \<Rightarrow> fullResponse o')"

definition update ::
  "('a, 'd, 'x, 'op, 'c) Source \<Rightarrow> 'a \<Rightarrow> RequestOptions option \<Rightarrow> string option \<Rightarrow> 'c world \<Rightarrow>
     (error + ('d, 'x, 'op) update_result) \<times> 'c world" where
  "update src transformOrOperations opts ident w =
     (case activated src of
        Some e \<Rightarrow> (Inl e, w)
      | None \<Rightarrow>
          (let transform = buildTransform src transformOrOperations opts ident
           in if transformId transform \<in> set (transformLog (fst w))
              then (Inr (if wants_fullResponse opts
                         then ResultFull (FullResponse None None (Some []) None)
                         else ResultTransforms []), w)
              else (case underscore_enqueueRequest_update src transform w of
                      (Inl e, w') \<Rightarrow> (Inl e, w')
                    | (Inr response, w') \<Rightarrow>
                        (Inr (if wants_fullResponse opts then ResultFull response
                              else ResultData (data response)), w'))))"

text \<open>The \<^verbatim>\<open>transform\<close> phase of a response: per transform, the append to the log and then the
  calls of the \<^verbatim>\<open>transform\<close> listeners.\<close>

definition transform_calls :: "('a, 'd, 'x, 'op, 'c) Source \<Rightarrow> 'op Transform list option \<Rightarrow> call list" where
  "transform_calls src ts =
     concat (map (\<lambda>x. LogAppend (transformId x) # emission ''transform'' x None (length (on_transform src)))
               (case ts of None \<Rightarrow> [] | Some l \<Rightarrow> l))"

text \<open>The response that \<^verbatim>\<open>__update__\<close> returns: the response of the handler, with
  \<^verbatim>\<open>sources\<close> set from the answers \<open>rs\<close> of the \<^verbatim>\<open>beforeUpdate\<close> listeners when there is at
  least one listener.\<close>

definition with_sources ::
  "('d, 'x, 'op) FullResponse \<Rightarrow> (string \<times> ('d, 'x, 'op) FullResponse) option list \<Rightarrow>
     ('d, 'x, 'op) FullResponse" where
  "with_sources resp rs =
     (if length rs > 0
      then FullResponse (data resp) (details resp) (transforms resp) (Some (mapNamedFullResponses rs))
      else resp)"

subsection \<open>Example sources\<close>

definition hook_hint :: "(string, string, string, nat) before_listener" where
  "hook_hint t h s = (Inr None, h\<lparr> hints_data := Some ''from cache'' \<rparr>, s)"

definition hook_count :: "(string, string, string, nat) before_listener" where
  "hook_count t h s =
     (Inr (Some (''backup'', FullResponse None None None None)), h, s\<lparr> external := Suc (external s) \<rparr>)"

definition hook_reject :: "(string, string, string, nat) before_listener" where
  "hook_reject t h s = (Inl (Thrown '':(''), h, s)"

definition example_handler ::
  "string Transform \<Rightarrow> (string, string) ResponseHints \<Rightarrow> nat SourceState \<Rightarrow>
     (error + (string, string, string) FullResponse) \<times> nat SourceState" where
  "example_handler t h s = (Inr (FullResponse (hints_data h) None (Some [t]) None), s)"

definition example_source :: "(string Transform, string, string, string, nat) Source" where
  "example_source =
     \<lparr> activated = None,
       buildTransform = (\<lambda>t opts ident. t),
       on_beforeUpdate = [hook_hint, hook_count],
       on_update = [\<lambda>t r s. (Inr (), s)],
       on_updateFail = [\<lambda>t e s. (Inr (), s)],
       on_transform = [\<lambda>t s. (Inr (), s)],
       underscore_update = example_handler \<rparr>"

text \<open>A source whose handler and whose \<^verbatim>\<open>update\<close> listener write the state.\<close>

definition writing_handler ::
  "string Transform \<Rightarrow> (string, string) ResponseHints \<Rightarrow> nat SourceState \<Rightarrow>
     (error + (string, string, string) FullResponse) \<times> nat SourceState" where
  "writing_handler t h s =
     (Inr (FullResponse (hints_data h) None (Some [t]) None), s\<lparr> external := external s + 100 \<rparr>)"

definition writing_source :: "(string Transform, string, string, string, nat) Source" where
  "writing_source =
     example_source\<lparr> underscore_update := writing_handler,
                     on_update := [\<lambda>t r s. (Inr (), s\<lparr> external := external s + 7 \<rparr>)] \<rparr>"

definition failing_source :: "(string Transform, string, string, string, nat) Source" where
  "failing_source = example_source\<lparr> on_beforeUpdate := [hook_hint, hook_reject, hook_count] \<rparr>"

definition addJupiter :: "string Transform" where
  "addJupiter = \<lparr> transformId = ''add-jupiter'', operations = [''addRecord''], options = None \<rparr>"

definition idle :: "nat SourceState" where
  "idle = \<lparr> transformLog = [], external = 0 \<rparr>"

section \<open>Invariants used below\<close>





text \<open>The table of the edge's related record, if there is one, holds no edge under the
  edge's key: the key is missing or holds \<^verbatim>\<open>null\<close>.\<close>

definition nulled :: "externals \<Rightarrow> RecordRelationshipIdentity \<Rightarrow> RecordTransformBuffer \<Rightarrow> bool" where
  "nulled E e b \<longleftrightarrow>
     (case map_of (inverseRelationships (buf_state b)) (serializeRecordIdentity E (relatedRecord e)) of
        None \<Rightarrow> True
      | Some rels \<Rightarrow>
          (case map_of rels (serializeRecordRelationshipIdentity E e) of
             Some (Some _) \<Rightarrow> False
           | _ \<Rightarrow> True))"

text \<open>Two edges with the same place in the index: the same key of the related record and
  the same edge key.\<close>

definition same_place :: "externals \<Rightarrow> RecordRelationshipIdentity \<Rightarrow> RecordRelationshipIdentity \<Rightarrow> bool" where
  "same_place E e e' \<longleftrightarrow>
     serializeRecordIdentity E (relatedRecord e') = serializeRecordIdentity E (relatedRecord e) \<and>
     serializeRecordRelationshipIdentity E e' = serializeRecordRelationshipIdentity E e"

text \<open>A call that may put an edge back at the place of \<open>e\<close>: an addition of an edge with
  that place, or a replacement of the whole state.\<close>

fun readds :: "externals \<Rightarrow> RecordRelationshipIdentity \<Rightarrow> buffer_call \<Rightarrow> bool" where
  "readds E e (AddInverseRelationships es) = list_ex (same_place E e) es"
| "readds E e (Reset st) = True"
| "readds E e _ = False"

text \<open>A call that replaces the state replaces it by one whose index is keyed by content.\<close>

fun reset_keyed :: "externals \<Rightarrow> buffer_call \<Rightarrow> bool" where
  "reset_keyed E (Reset (Some st)) = keyed_index E st"
| "reset_keyed E _ = True"

section \<open>The transform buffer: reads\<close>

lemma getInverseRelationshipsSync_of_list: "getInverseRelationshipsSync E b (Inr identities) = []"
proof -
  have "fst (fold (\<lambda>r (relationships, proto).
                     (relationships,
                      Array_prototype_push proto relationships
                        (underscore_getInverseRelationshipsSync E b r)))
               identities (acc, p)) = acc" for acc p
    by (induction identities arbitrary: p) auto
  then show ?thesis by (simp add: getInverseRelationshipsSync_def)
qed

lemmas buffer_defs =
  getInverseRelationshipsSync_def underscore_getInverseRelationshipsSync_def objectValues_def
  addInverseRelationshipsSync_def removeInverseRelationshipsSync_def add_edge_def tombstone_edge_def
  serializeRecordRelationshipIdentity_def deserializeRecordRelationshipIdentity_def
  setRecordSync_def removeRecordSync_def getRecordSync_def getRecordsSync_def
  startTrackingChanges_def stopTrackingChanges_def changeset_of_delta_def record_entry_def
  edge_entry_def push_def reset_def run_calls_def
  new_RecordTransformBuffer_def empty_state_def empty_changeset_def
  orbit_records_def key_of_identity_def identity_of_key_def
  jupiter_def earth_def sol_def sol_planets_earth_def RecordIdentity.truncate_def Let_def

text \<open>
  Claim C2: \<^verbatim>\<open>getInverseRelationships\<close> applied to a list of identities returns the
  concatenation of the edges of each listed record, in the order of the list; for a list of
  one record that has an inbound edge the result is not empty and equals the result for
  that record alone.

  The code does not do this. With the edge \<open>sol.planets \<rightarrow> earth\<close> in the index, the read of
  the single identity \<open>earth\<close> returns the edge, and the read of the list \<open>[earth]\<close> returns
  the empty list: the callback appends to \<^verbatim>\<open>Array.prototype\<close> and never to the array that is
  returned.
\<close>

theorem list_read_of_inverse_relationships_is_empty:
  "getInverseRelationshipsSync orbit_records
      (addInverseRelationshipsSync orbit_records [sol_planets_earth] new_RecordTransformBuffer)
      (Inl earth) = [sol_planets_earth]
   \<and> getInverseRelationshipsSync orbit_records
      (addInverseRelationshipsSync orbit_records [sol_planets_earth] new_RecordTransformBuffer)
      (Inr [earth]) = []"
  by (simp add: getInverseRelationshipsSync_of_list) (simp add: buffer_defs)

text \<open>
  Claim C5: \<^verbatim>\<open>getRecords(t)\<close> for a type name \<open>t\<close> returns exactly the stored records of
  type \<open>t\<close>; after one planet has been stored, \<^verbatim>\<open>getRecords('planet')\<close> is a list of that one
  record.

  The code does not do this. It looks the type name up as a key of the table of records,
  whose keys are \<^verbatim>\<open>type:id\<close>, finds nothing, and hands \<^verbatim>\<open>undefined\<close> to \<^verbatim>\<open>objectValues\<close>.
  Whatever that helper answers (\<open>ov\<close>), the answer for the buffer that holds Jupiter is the
  answer for the empty buffer; the read by identity finds the record.
\<close>

theorem getRecordsSync_by_type_misses_the_record:
  "getRecordsSync orbit_records ov
      (setRecordSync orbit_records jupiter new_RecordTransformBuffer)
      (ByType ''planet'') = Inr (ObjectValues_result (ov Undefined))
   \<and> getRecordsSync orbit_records ov new_RecordTransformBuffer
      (ByType ''planet'') = Inr (ObjectValues_result (ov Undefined))
   \<and> getRecordsSync orbit_records ov
      (setRecordSync orbit_records jupiter new_RecordTransformBuffer)
      (ByIdentities [RecordIdentity.truncate jupiter]) = Inr (Records [jupiter])"
  by (simp add: buffer_defs read_property_def Object_prototype_names_def)

section \<open>The transform buffer: tracked sessions\<close>

text \<open>
  Claim C4: with a tracked session open, \<^verbatim>\<open>startTrackingChanges\<close> fails with an error and
  does not open a fresh session in place of the open one.

  The code has no such check. Below, Jupiter is set in a first session; the second
  \<^verbatim>\<open>startTrackingChanges\<close> returns, the delta of the first session is gone, and the changeset
  of \<^verbatim>\<open>stopTrackingChanges\<close> is empty.
\<close>

theorem startTrackingChanges_twice_counterexample:
  "buf_delta (setRecordSync orbit_records jupiter (startTrackingChanges new_RecordTransformBuffer))
     = Some \<lparr> records = [(''planet:jupiter'', Some jupiter)], inverseRelationships = [] \<rparr>
   \<and> startTrackingChanges
       (setRecordSync orbit_records jupiter (startTrackingChanges new_RecordTransformBuffer))
     = \<lparr> buf_state = \<lparr> records = [(''planet:jupiter'', Some jupiter)], inverseRelationships = [] \<rparr>,
         buf_delta = Some \<lparr> records = [], inverseRelationships = [] \<rparr> \<rparr>
   \<and> stopTrackingChanges orbit_records
       (startTrackingChanges
          (setRecordSync orbit_records jupiter (startTrackingChanges new_RecordTransformBuffer)))
     = Inr (empty_changeset,
            \<lparr> buf_state = \<lparr> records = [(''planet:jupiter'', Some jupiter)], inverseRelationships = [] \<rparr>,
              buf_delta = None \<rparr>)"
  by (simp add: buffer_defs)

text \<open>
  Claim C4, as the code has it: \<^verbatim>\<open>startTrackingChanges\<close> never fails. Whether or not a
  session is open, it leaves the state as it is and opens a session with an empty delta, so
  that an immediate \<^verbatim>\<open>stopTrackingChanges\<close> succeeds with the empty changeset.
\<close>

theorem startTrackingChanges_opens_fresh_session:
  "buf_state (startTrackingChanges b) = buf_state b
   \<and> buf_delta (startTrackingChanges b) = Some empty_state
   \<and> stopTrackingChanges E (startTrackingChanges b) = Inr (empty_changeset, b\<lparr> buf_delta := None \<rparr>)"
  by (simp add: startTrackingChanges_def stopTrackingChanges_def changeset_of_delta_def empty_state_def)

text \<open>
  Claim C3: an edge that is in the index and is removed by \<^verbatim>\<open>removeInverseRelationships\<close>
  during a tracked session is listed under \<^verbatim>\<open>removeInverseRelationships\<close> in the changeset
  of \<^verbatim>\<open>stopTrackingChanges\<close>, also when the edge was there before the session and was not
  otherwise touched.

  The code does not do this for such an edge. The edge is added, then the session starts,
  then the edge is removed: the index holds the tombstone, and the changeset is empty. When
  the edge is added inside the session, the delta has a table for the related record and the
  removal is listed.
\<close>

theorem removal_of_earlier_edge_is_not_listed:
  "stopTrackingChanges orbit_records
      (removeInverseRelationshipsSync orbit_records [sol_planets_earth]
         (startTrackingChanges
            (addInverseRelationshipsSync orbit_records [sol_planets_earth] new_RecordTransformBuffer)))
     = Inr (empty_changeset,
            \<lparr> buf_state = \<lparr> records = [],
                 inverseRelationships = [(''planet:earth'', [(''star:sol::planets'', None)])] \<rparr>,
              buf_delta = None \<rparr>)
   \<and> stopTrackingChanges orbit_records
      (removeInverseRelationshipsSync orbit_records [sol_planets_earth]
         (addInverseRelationshipsSync orbit_records [sol_planets_earth]
            (startTrackingChanges new_RecordTransformBuffer)))
     = Inr (empty_changeset\<lparr> removeInverseRelationships := Some [sol_planets_earth] \<rparr>,
            \<lparr> buf_state = \<lparr> records = [],
                 inverseRelationships = [(''planet:earth'', [(''star:sol::planets'', None)])] \<rparr>,
              buf_delta = None \<rparr>)"
  by (simp add: buffer_defs)

subsection \<open>The delta of an open session\<close>

lemma update_entries_subset: "set (AList.update k v al) \<subseteq> insert (k, v) (set al)"
  by (induction al) auto






lemma removeRecordsSync_Cons:
  "snd (removeRecordsSync E (i # is) b) = snd (removeRecordsSync E is (snd (removeRecordSync E i b)))"
proof -
  have gen: "snd (fold (\<lambda>recordIdentity (rs, b').
             (case removeRecordSync E recordIdentity b' of
                (Some r, b'') \<Rightarrow> (rs @ [r], b'')
              | (None, b'') \<Rightarrow> (rs, b''))) is (acc, b0))
      = snd (fold (\<lambda>recordIdentity (rs, b').
             (case removeRecordSync E recordIdentity b' of
                (Some r, b'') \<Rightarrow> (rs @ [r], b'')
              | (None, b'') \<Rightarrow> (rs, b''))) is (acc', b0))" for "is" acc acc' b0
    by (induction "is" arbitrary: acc acc' b0) (auto split: prod.splits option.splits)
  show ?thesis
    unfolding removeRecordsSync_def
    by (cases "removeRecordSync E i b") (auto split: option.splits intro: gen)
qed

lemma removeRecordsSync_Nil: "snd (removeRecordsSync E [] b) = b"
  by (simp add: removeRecordsSync_def)

















subsection \<open>What a changeset lists\<close>









text \<open>The key \<^verbatim>\<open>type:id\<close> does not determine the identity: two identities share the key
  \<^verbatim>\<open>planet:a:b\<close>, so no deserializer reads both back.\<close>

lemma key_of_identity_shared:
  "key_of_identity \<lparr> type' = ''planet'', id' = ''a:b'' \<rparr>
     = key_of_identity \<lparr> type' = ''planet:a'', id' = ''b'' \<rparr>"
  by (simp add: key_of_identity_def)




subsection \<open>Tombstones in the index\<close>

lemma keyed_table_tombstone: "keyed_table E rels \<Longrightarrow> keyed_table E (AList.update k None rels)"
  using update_entries_subset [of k None rels]
  by (auto simp: keyed_table_def list_all_iff distinct_update)

lemma keyed_index_lookup:
  "keyed_index E st \<Longrightarrow> map_of (inverseRelationships st) ri = Some rels \<Longrightarrow> keyed_table E rels"
  by (auto simp: keyed_index_def list_all_iff dest: map_of_SomeD)

lemma keyed_index_tombstone: "keyed_index E st \<Longrightarrow> keyed_index E (tombstone_edge ri rri st)"
proof (cases "map_of (inverseRelationships st) ri")
  case None
  then show "keyed_index E st \<Longrightarrow> ?thesis" by (simp add: tombstone_edge_def)
next
  case (Some rels)
  assume k: "keyed_index E st"
  then have "keyed_table E (AList.update rri None rels)"
    using Some by (intro keyed_table_tombstone) (rule keyed_index_lookup)
  then show ?thesis
    using k Some update_entries_subset [of ri "AList.update rri None rels" "inverseRelationships st"]
    by (auto simp: tombstone_edge_def keyed_index_def list_all_iff)
qed

lemma remove_Cons:
  "removeInverseRelationshipsSync E (e # es) b =
     removeInverseRelationshipsSync E es (removeInverseRelationshipsSync E [e] b)"
  by (simp add: removeInverseRelationshipsSync_def)

lemma remove_one_state:
  "buf_state (removeInverseRelationshipsSync E [e] b) =
     tombstone_edge (serializeRecordIdentity E (relatedRecord e))
       (serializeRecordRelationshipIdentity E e) (buf_state b)"
  by (simp add: removeInverseRelationshipsSync_def Let_def tombstone_edge_def split: option.splits)

lemma lookup_tombstone:
  "map_of (inverseRelationships (tombstone_edge ri rri st)) ri' =
     (case map_of (inverseRelationships st) ri' of
        None \<Rightarrow> None
      | Some rels \<Rightarrow> Some (if ri' = ri then AList.update rri None rels else rels))"
  by (auto simp: tombstone_edge_def update_conv' split: option.splits)

lemma nulled_remove_self: "nulled E e (removeInverseRelationshipsSync E [e] b)"
  by (simp add: nulled_def remove_one_state lookup_tombstone update_conv' split: option.splits)

lemma nulled_remove_other: "nulled E e b \<Longrightarrow> nulled E e (removeInverseRelationshipsSync E [e'] b)"
  by (auto simp: nulled_def remove_one_state lookup_tombstone update_conv' split: option.splits)

lemma nulled_remove_list: "nulled E e b \<Longrightarrow> nulled E e (removeInverseRelationshipsSync E es b)"
proof (induction es arbitrary: b)
  case Nil
  then show ?case by (simp add: removeInverseRelationshipsSync_def)
next
  case (Cons e' es)
  then show ?case by (subst remove_Cons) (simp add: nulled_remove_other)
qed

lemma nulled_after_remove:
  "e \<in> set es \<Longrightarrow> nulled E e (removeInverseRelationshipsSync E es b)"
proof (induction es arbitrary: b)
  case Nil
  then show ?case by simp
next
  case (Cons e' es)
  show ?case
  proof (cases "e = e'")
    case True
    then show ?thesis
      by (subst remove_Cons) (simp add: nulled_remove_list nulled_remove_self)
  next
    case False
    with Cons show ?thesis by (subst remove_Cons) simp
  qed
qed

lemma keyed_index_remove:
  "keyed_index E (buf_state b) \<Longrightarrow> keyed_index E (buf_state (removeInverseRelationshipsSync E es b))"
proof (induction es arbitrary: b)
  case Nil
  then show ?case by (simp add: removeInverseRelationshipsSync_def)
next
  case (Cons e es)
  then show ?case
    by (subst remove_Cons) (simp add: remove_one_state keyed_index_tombstone)
qed

lemma set_map_filter_id: "set (List.map_filter (\<lambda>r. r) xs) = {y. Some y \<in> set xs}"
  by (induction xs) (auto split: option.splits)

lemma nulled_not_read:
  assumes "keyed_index E (buf_state b)" and "nulled E e b"
  shows "e \<notin> set (underscore_getInverseRelationshipsSync E b (relatedRecord e))"
proof (cases "map_of (inverseRelationships (buf_state b)) (serializeRecordIdentity E (relatedRecord e))")
  case None
  then show ?thesis by (simp add: underscore_getInverseRelationshipsSync_def)
next
  case (Some rels)
  with assms(1) have kt: "keyed_table E rels" by (rule keyed_index_lookup)
  from assms(2) Some have n: "map_of rels (serializeRecordRelationshipIdentity E e) \<noteq> Some (Some e)"
    by (auto simp: nulled_def split: option.splits)
  show ?thesis
  proof
    assume "e \<in> set (underscore_getInverseRelationshipsSync E b (relatedRecord e))"
    with Some obtain k where k: "(k, Some e) \<in> set rels"
      by (auto simp: underscore_getInverseRelationshipsSync_def objectValues_def set_map_filter_id)
    with kt have "k = serializeRecordRelationshipIdentity E e"
      by (auto simp: keyed_table_def list_all_iff)
    moreover from kt k have "map_of rels k = Some (Some e)" by (simp add: keyed_table_def)
    ultimately show False using n by simp
  qed
qed

lemma keyed_table_add:
  "keyed_table E rels \<Longrightarrow>
     keyed_table E (AList.update (serializeRecordRelationshipIdentity E e) (Some e) rels)"
  using update_entries_subset [of "serializeRecordRelationshipIdentity E e" "Some e" rels]
  by (auto simp: keyed_table_def list_all_iff distinct_update)

lemma keyed_index_add_edge: "keyed_index E st \<Longrightarrow> keyed_index E (add_edge E e st)"
proof -
  assume k: "keyed_index E st"
  let ?ri = "serializeRecordIdentity E (relatedRecord e)"
  let ?rels = "case map_of (inverseRelationships st) ?ri of None \<Rightarrow> [] | Some d \<Rightarrow> d"
  have "keyed_table E ?rels"
    using k by (auto simp: keyed_table_def split: option.splits dest: keyed_index_lookup)
  then have "keyed_table E (AList.update (serializeRecordRelationshipIdentity E e) (Some e) ?rels)"
    by (rule keyed_table_add)
  then show ?thesis
    using k update_entries_subset [of ?ri
        "AList.update (serializeRecordRelationshipIdentity E e) (Some e) ?rels" "inverseRelationships st"]
    by (auto simp: add_edge_def Let_def keyed_index_def list_all_iff)
qed

lemma keyed_index_add:
  "keyed_index E (buf_state b) \<Longrightarrow> keyed_index E (buf_state (addInverseRelationshipsSync E es b))"
  unfolding addInverseRelationshipsSync_def
  by (induction es arbitrary: b) (simp_all add: keyed_index_add_edge)

lemma index_setRecordSync:
  "inverseRelationships (buf_state (setRecordSync E r b)) = inverseRelationships (buf_state b)"
  by (simp add: setRecordSync_def Let_def)

lemma index_setRecordsSync:
  "inverseRelationships (buf_state (setRecordsSync E rs b)) = inverseRelationships (buf_state b)"
  unfolding setRecordsSync_def
  by (induction rs arbitrary: b) (simp_all add: index_setRecordSync)

lemma index_removeRecordSync:
  "inverseRelationships (buf_state (snd (removeRecordSync E i b))) = inverseRelationships (buf_state b)"
  by (simp add: removeRecordSync_def Let_def split: option.splits)

lemma index_removeRecordsSync:
  "inverseRelationships (buf_state (snd (removeRecordsSync E is b))) = inverseRelationships (buf_state b)"
  by (induction "is" arbitrary: b)
     (simp_all add: removeRecordsSync_Nil removeRecordsSync_Cons index_removeRecordSync)

lemma keyed_index_cong:
  "inverseRelationships st' = inverseRelationships st \<Longrightarrow> keyed_index E st \<Longrightarrow> keyed_index E st'"
  by (simp add: keyed_index_def)

lemma keyed_index_call:
  assumes "reset_keyed E c" and "keyed_index E (buf_state b)"
  shows "keyed_index E (buf_state (call_buffer E c b))"
proof (cases c)
  case (SetRecord r)
  then show ?thesis using assms(2) keyed_index_cong [OF index_setRecordSync] by simp
next
  case (SetRecords rs)
  then show ?thesis using assms(2) keyed_index_cong [OF index_setRecordsSync] by simp
next
  case (RemoveRecord i)
  then show ?thesis using assms(2) keyed_index_cong [OF index_removeRecordSync] by simp
next
  case (RemoveRecords "is")
  then show ?thesis using assms(2) keyed_index_cong [OF index_removeRecordsSync] by simp
next
  case (AddInverseRelationships es)
  then show ?thesis using assms(2) by (simp add: keyed_index_add)
next
  case (RemoveInverseRelationships es)
  then show ?thesis using assms(2) by (simp add: keyed_index_remove)
next
  case (Reset st)
  then show ?thesis
    using assms(1) by (cases st) (simp_all add: reset_def keyed_index_def empty_state_def)
qed

text \<open>Every buffer made from the new buffer by calls of the mutators has a keyed index.\<close>

lemma keyed_index_new: "keyed_index E (buf_state new_RecordTransformBuffer)"
  by (simp add: keyed_index_def new_RecordTransformBuffer_def empty_state_def)

lemma keyed_index_run:
  "list_all (reset_keyed E) cs \<Longrightarrow> keyed_index E (buf_state b) \<Longrightarrow>
     keyed_index E (buf_state (run_calls E cs b))"
  unfolding run_calls_def
  by (induction cs arbitrary: b) (simp_all add: keyed_index_call)

lemma lookup_add_edge:
  "map_of (inverseRelationships (add_edge E e' st)) ri =
     (if ri = serializeRecordIdentity E (relatedRecord e')
      then Some (AList.update (serializeRecordRelationshipIdentity E e') (Some e')
                   (case map_of (inverseRelationships st) ri of None \<Rightarrow> [] | Some d \<Rightarrow> d))
      else map_of (inverseRelationships st) ri)"
  by (simp add: add_edge_def Let_def update_conv')

lemma add_Cons:
  "addInverseRelationshipsSync E (e # es) b =
     addInverseRelationshipsSync E es (addInverseRelationshipsSync E [e] b)"
  by (simp add: addInverseRelationshipsSync_def)

lemma add_one_state:
  "buf_state (addInverseRelationshipsSync E [e] b) = add_edge E e (buf_state b)"
  by (simp add: addInverseRelationshipsSync_def)

lemma nulled_add_other:
  "\<not> same_place E e e' \<Longrightarrow> nulled E e b \<Longrightarrow> nulled E e (addInverseRelationshipsSync E [e'] b)"
  by (auto simp: nulled_def same_place_def add_one_state lookup_add_edge update_conv'
           split: option.splits)

lemma nulled_add_list:
  "\<not> list_ex (same_place E e) es \<Longrightarrow> nulled E e b \<Longrightarrow> nulled E e (addInverseRelationshipsSync E es b)"
proof (induction es arbitrary: b)
  case Nil
  then show ?case by (simp add: addInverseRelationshipsSync_def)
next
  case (Cons e' es)
  then show ?case by (subst add_Cons) (simp add: nulled_add_other)
qed

lemma nulled_cong:
  "inverseRelationships (buf_state b') = inverseRelationships (buf_state b) \<Longrightarrow> nulled E e b \<Longrightarrow> nulled E e b'"
  by (simp add: nulled_def)

lemma nulled_call:
  assumes "\<not> readds E e c" and "nulled E e b"
  shows "nulled E e (call_buffer E c b)"
proof (cases c)
  case (SetRecord r)
  then show ?thesis using assms(2) nulled_cong [OF index_setRecordSync] by simp
next
  case (SetRecords rs)
  then show ?thesis using assms(2) nulled_cong [OF index_setRecordsSync] by simp
next
  case (RemoveRecord i)
  then show ?thesis using assms(2) nulled_cong [OF index_removeRecordSync] by simp
next
  case (RemoveRecords "is")
  then show ?thesis using assms(2) nulled_cong [OF index_removeRecordsSync] by simp
next
  case (AddInverseRelationships es)
  then show ?thesis using assms by (simp add: nulled_add_list)
next
  case (RemoveInverseRelationships es)
  then show ?thesis using assms(2) by (simp add: nulled_remove_list)
next
  case (Reset st)
  then show ?thesis using assms(1) by simp
qed

lemma readds_reset_keyed: "\<not> readds E e c \<Longrightarrow> reset_keyed E c"
  by (cases c) simp_all

lemma nulled_run:
  "list_all (\<lambda>c. \<not> readds E e c) cs \<Longrightarrow> nulled E e b \<Longrightarrow> nulled E e (run_calls E cs b)"
  unfolding run_calls_def
  by (induction cs arbitrary: b) (simp_all add: nulled_call)

lemma keyed_index_run_no_readd:
  "list_all (\<lambda>c. \<not> readds E e c) cs \<Longrightarrow> keyed_index E (buf_state b) \<Longrightarrow>
     keyed_index E (buf_state (run_calls E cs b))"
  by (rule keyed_index_run) (auto simp: list_all_iff intro: readds_reset_keyed)

text \<open>
  Claim C9: an edge removed by \<^verbatim>\<open>removeInverseRelationshipsSync\<close> is absent from every
  later read of its related record by \<^verbatim>\<open>getInverseRelationshipsSync\<close> with a single identity,
  until it is added again. The index keeps a \<^verbatim>\<open>null\<close> under the key of the edge and the read
  drops the \<^verbatim>\<open>null\<close> entries.

  The buffer is any buffer whose index is keyed by content: each table holds a key once and
  a stored edge sits under its own key, as in every buffer that the mutators build. The
  calls \<open>later\<close> are any calls of the mutators after the removal that do not put an edge back
  at the place of the removed one.
\<close>

theorem removed_edge_is_not_read:
  assumes "keyed_index E (buf_state b)" and "e \<in> set es"
    and "list_all (\<lambda>c. \<not> readds E e c) later"
  shows "e \<notin> set (getInverseRelationshipsSync E
                    (run_calls E later (removeInverseRelationshipsSync E es b))
                    (Inl (relatedRecord e)))"
proof -
  have "keyed_index E (buf_state (run_calls E later (removeInverseRelationshipsSync E es b)))"
    using assms(3) keyed_index_remove [OF assms(1)] by (rule keyed_index_run_no_readd)
  moreover have "nulled E e (run_calls E later (removeInverseRelationshipsSync E es b))"
    using assms(3) nulled_after_remove [OF assms(2)] by (rule nulled_run)
  ultimately show ?thesis
    using nulled_not_read by (simp add: getInverseRelationshipsSync_def)
qed

theorem removed_edge_is_not_read_witness:
  "keyed_index orbit_records
      (buf_state (addInverseRelationshipsSync orbit_records [sol_planets_earth] new_RecordTransformBuffer))
   \<and> sol_planets_earth \<in> set [sol_planets_earth]
   \<and> list_all (\<lambda>c. \<not> readds orbit_records sol_planets_earth c)
        [SetRecord jupiter, AddInverseRelationships [sol_planets_earth\<lparr> relationship := Some ''bodies'' \<rparr>]]
   \<and> sol_planets_earth \<in> set (getInverseRelationshipsSync orbit_records
        (addInverseRelationshipsSync orbit_records [sol_planets_earth] new_RecordTransformBuffer)
        (Inl earth))
   \<and> sol_planets_earth \<notin> set (getInverseRelationshipsSync orbit_records
        (run_calls orbit_records
           [SetRecord jupiter, AddInverseRelationships [sol_planets_earth\<lparr> relationship := Some ''bodies'' \<rparr>]]
           (removeInverseRelationshipsSync orbit_records [sol_planets_earth]
              (addInverseRelationshipsSync orbit_records [sol_planets_earth] new_RecordTransformBuffer)))
        (Inl earth))"
proof -
  have h1: "keyed_index orbit_records
      (buf_state (addInverseRelationshipsSync orbit_records [sol_planets_earth] new_RecordTransformBuffer))"
    by (simp add: keyed_index_def keyed_table_def buffer_defs)
  have h2: "sol_planets_earth \<in> set [sol_planets_earth]" by simp
  have h3: "list_all (\<lambda>c. \<not> readds orbit_records sol_planets_earth c)
        [SetRecord jupiter, AddInverseRelationships [sol_planets_earth\<lparr> relationship := Some ''bodies'' \<rparr>]]"
    by (simp add: same_place_def buffer_defs)
  have h4: "sol_planets_earth \<in> set (getInverseRelationshipsSync orbit_records
        (addInverseRelationshipsSync orbit_records [sol_planets_earth] new_RecordTransformBuffer)
        (Inl earth))"
    by (simp add: buffer_defs)
  have e: "relatedRecord sol_planets_earth = earth" by (simp add: sol_planets_earth_def)
  show ?thesis
    using removed_edge_is_not_read [OF h1 h2 h3] h1 h3 h4 by (simp add: e)
qed

section \<open>The transform buffer: reset\<close>

text \<open>
  Claim C10: \<^verbatim>\<open>reset\<close> during an open tracked session replaces the state only. The session
  stays open with the delta it had, so a later \<^verbatim>\<open>stopTrackingChanges\<close> succeeds, and its
  changeset is the one that \<^verbatim>\<open>stopTrackingChanges\<close> would have returned before the reset.
\<close>

theorem reset_keeps_session:
  assumes "buf_delta b = Some d"
  shows "buf_state (reset st b) = (case st of None \<Rightarrow> empty_state | Some s \<Rightarrow> s)
         \<and> buf_delta (reset st b) = Some d
         \<and> stopTrackingChanges E (reset st b) =
             Inr (changeset_of_delta E d,
                  \<lparr> buf_state = (case st of None \<Rightarrow> empty_state | Some s \<Rightarrow> s), buf_delta = None \<rparr>)
         \<and> stopTrackingChanges E b = Inr (changeset_of_delta E d, b\<lparr> buf_delta := None \<rparr>)"
  using assms by (simp add: reset_def stopTrackingChanges_def)

theorem reset_keeps_session_witness:
  "buf_delta (snd (removeRecordSync orbit_records earth
       (setRecordSync orbit_records jupiter
          (startTrackingChanges
             (setRecordSync orbit_records (RecordIdentity.extend earth (Record.fields None None None))
                new_RecordTransformBuffer)))))
     = Some \<lparr> records = [(''planet:jupiter'', Some jupiter), (''planet:earth'', None)],
              inverseRelationships = [] \<rparr>
   \<and> stopTrackingChanges orbit_records
       (reset None (snd (removeRecordSync orbit_records earth
          (setRecordSync orbit_records jupiter
             (startTrackingChanges
                (setRecordSync orbit_records (RecordIdentity.extend earth (Record.fields None None None))
                   new_RecordTransformBuffer))))))
     = Inr (empty_changeset\<lparr> setRecords := Some [jupiter], removeRecords := Some [earth] \<rparr>,
            \<lparr> buf_state = empty_state, buf_delta = None \<rparr>)"
proof -
  have h: "buf_delta (snd (removeRecordSync orbit_records earth
       (setRecordSync orbit_records jupiter
          (startTrackingChanges
             (setRecordSync orbit_records (RecordIdentity.extend earth (Record.fields None None None))
                new_RecordTransformBuffer)))))
     = Some \<lparr> records = [(''planet:jupiter'', Some jupiter), (''planet:earth'', None)],
              inverseRelationships = [] \<rparr>"
    by (simp add: buffer_defs RecordIdentity.extend_def Record.fields_def)
  have c: "changeset_of_delta orbit_records
             \<lparr> records = [(''planet:jupiter'', Some jupiter), (''planet:earth'', None)],
               inverseRelationships = [] \<rparr>
           = empty_changeset\<lparr> setRecords := Some [jupiter], removeRecords := Some [earth] \<rparr>"
    by (simp add: buffer_defs)
  show ?thesis
    using reset_keeps_session [OF h, of None orbit_records] h by (simp add: c)
qed

section \<open>The update request: calls and their order\<close>

lemma emission_Suc: "emission name t err (Suc k) = emission name t err k @ [emitted name t err k]"
  by (simp add: emission_def)

lemma upt_shift: "[n..<Suc (n + k)] = n # [Suc n..<Suc (n + k)]"
  by (rule upt_conv_Cons) simp

lemma settle_calls:
  "snd (settleInSeries ls ev n (s, tr)) = tr @ map ev [n..<n + length ls]"
proof (induction ls arbitrary: n s tr)
  case Nil
  then show ?case by simp
next
  case (Cons l ls)
  show ?case by (simp add: Cons.IH upt_shift del: upt_Suc)
qed

lemma fulfill_ok_calls:
  "fulfillInSeries ls ev n h (s, tr) = (Inr rs, h', (s', tr')) \<Longrightarrow>
     tr' = tr @ map ev [n..<n + length ls] \<and> length rs = length ls"
proof (induction ls arbitrary: n h s tr rs)
  case Nil
  then show ?case by simp
next
  case (Cons l ls)
  then show ?case
    by (fastforce simp: upt_shift simp del: upt_Suc split: prod.splits sum.splits)
qed

lemma fulfill_append:
  "fulfillInSeries (xs @ ys) ev n h w =
     (case fulfillInSeries xs ev n h w of
        (Inl e, h', w') \<Rightarrow> (Inl e, h', w')
      | (Inr rs, h', w') \<Rightarrow>
          (case fulfillInSeries ys ev (n + length xs) h' w' of
             (Inl e, h'', w'') \<Rightarrow> (Inl e, h'', w'')
           | (Inr rs', h'', w'') \<Rightarrow> (Inr (rs @ rs'), h'', w'')))"
proof (induction xs arbitrary: n h w)
  case Nil
  then show ?case by (simp split: prod.splits sum.splits)
next
  case (Cons x xs)
  obtain s tr where w: "w = (s, tr)" by (cases w)
  show ?case
    unfolding w by (simp add: Cons.IH split: prod.splits sum.splits)
qed

lemma transformed_calls:
  "snd (transformed src ts (s, tr)) =
     tr @ concat (map (\<lambda>x. LogAppend (transformId x) #
                              emission ''transform'' x None (length (on_transform src))) ts)"
proof (induction ts arbitrary: s tr)
  case Nil
  then show ?case by simp
next
  case (Cons t ts)
  obtain s' tr' where st: "settleInSeries (map (\<lambda>l. l t) (on_transform src)) (emitted ''transform'' t None) 0
          (s\<lparr> transformLog := transformLog s @ [transformId t] \<rparr>, tr @ [LogAppend (transformId t)]) = (s', tr')"
    by (cases "settleInSeries (map (\<lambda>l. l t) (on_transform src)) (emitted ''transform'' t None) 0
          (s\<lparr> transformLog := transformLog s @ [transformId t] \<rparr>, tr @ [LogAppend (transformId t)])")
  have "tr' = tr @ [LogAppend (transformId t)] @ emission ''transform'' t None (length (on_transform src))"
    using settle_calls [of "map (\<lambda>l. l t) (on_transform src)" "emitted ''transform'' t None" 0
        "s\<lparr> transformLog := transformLog s @ [transformId t] \<rparr>" "tr @ [LogAppend (transformId t)]"]
    by (simp add: st emission_def)
  then show ?case by (simp add: st Cons.IH)
qed

lemmas source_defs =
  update_def dunder_update_def underscore_enqueueRequest_update_def wants_fullResponse_def
  mapNamedFullResponses_def emitted_def emission_def transform_calls_def empty_hints_def
  example_source_def failing_source_def example_handler_def hook_hint_def hook_count_def
  hook_reject_def addJupiter_def idle_def Let_def

text \<open>
  Claim C1: when the id of the transform is already in the transform log of the source,
  \<^verbatim>\<open>update\<close> resolves at once with an empty list of transforms, or with
  \<^verbatim>\<open>{transforms: []}\<close> when the \<^verbatim>\<open>fullResponse\<close> option is set. No listener of
  \<^verbatim>\<open>beforeUpdate\<close> runs, \<^verbatim>\<open>_update\<close> is not invoked and the state of the source is as it
  was: no call is added and the state is returned unchanged. \<^verbatim>\<open>__update__\<close> has the same
  check. The source is one whose \<^verbatim>\<open>activated\<close> promise has fulfilled, which \<^verbatim>\<open>update\<close>
  awaits first.
\<close>

theorem deduplicated_update:
  assumes "activated src = None"
    and "transformId (buildTransform src a opts ident) \<in> set (transformLog s)"
  shows "update src a opts ident (s, tr) =
           (Inr (if wants_fullResponse opts
                 then ResultFull (FullResponse None None (Some []) None)
                 else ResultTransforms []), (s, tr))
         \<and> dunder_update src (buildTransform src a opts ident) (s, tr) =
           (Inr (FullResponse None None (Some []) None), (s, tr))"
  using assms by (simp add: update_def dunder_update_def)

theorem deduplicated_update_witness:
  "update example_source addJupiter None None (idle, []) =
     (Inr (ResultData (Some ''from cache'')),
      (\<lparr> transformLog = [''add-jupiter''], external = 1 \<rparr>,
       [Listener ''beforeUpdate'' 0 ''add-jupiter'' None,
        Listener ''beforeUpdate'' 1 ''add-jupiter'' None,
        Handler ''add-jupiter'',
        LogAppend ''add-jupiter'',
        Listener ''transform'' 0 ''add-jupiter'' None,
        Listener ''update'' 0 ''add-jupiter'' None]))
   \<and> update example_source addJupiter None None
        (\<lparr> transformLog = [''add-jupiter''], external = 1 \<rparr>, []) =
     (Inr (ResultTransforms []), (\<lparr> transformLog = [''add-jupiter''], external = 1 \<rparr>, []))
   \<and> update example_source addJupiter (Some \<lparr> fullResponse = True \<rparr>) None
        (\<lparr> transformLog = [''add-jupiter''], external = 1 \<rparr>, []) =
     (Inr (ResultFull (FullResponse None None (Some []) None)),
      (\<lparr> transformLog = [''add-jupiter''], external = 1 \<rparr>, []))"
proof -
  have a: "activated example_source = None" by (simp add: example_source_def)
  have l: "transformId (buildTransform example_source addJupiter opts None)
             \<in> set (transformLog \<lparr> transformLog = [''add-jupiter''], external = 1::nat \<rparr>)" for opts
    by (simp add: example_source_def addJupiter_def)
  have first: "update example_source addJupiter None None (idle, []) =
     (Inr (ResultData (Some ''from cache'')),
      (\<lparr> transformLog = [''add-jupiter''], external = 1 \<rparr>,
       [Listener ''beforeUpdate'' 0 ''add-jupiter'' None,
        Listener ''beforeUpdate'' 1 ''add-jupiter'' None,
        Handler ''add-jupiter'',
        LogAppend ''add-jupiter'',
        Listener ''transform'' 0 ''add-jupiter'' None,
        Listener ''update'' 0 ''add-jupiter'' None]))"
    by (simp add: source_defs)
  show ?thesis
    using deduplicated_update [OF a l, of None "[]"]
      deduplicated_update [OF a l, of "Some \<lparr> fullResponse = True \<rparr>" "[]"] first
    by (simp add: wants_fullResponse_def)
qed

text \<open>
  Claim C7: when a listener of \<^verbatim>\<open>beforeUpdate\<close> fails, the listeners registered after it
  are not invoked, \<^verbatim>\<open>_update\<close> is not invoked, the \<^verbatim>\<open>updateFail\<close> event is emitted with the
  transform and the error, and then the same error is rethrown to the caller.

  The listeners are \<open>pre\<close>, then the failing listener \<open>l\<close>, then \<open>post\<close>. The listeners of
  \<open>pre\<close> succeed and leave the hints \<open>h1\<close> and the state \<open>s1\<close>, where \<open>l\<close> fails with \<open>e\<close>.
  Then the calls of the request are those of \<open>pre\<close> and \<open>l\<close> followed by one call of each
  \<^verbatim>\<open>updateFail\<close> listener with \<open>e\<close>, and nothing else; \<^verbatim>\<open>__update__\<close> fails with \<open>e\<close>, and
  so does \<^verbatim>\<open>update\<close>.
\<close>

theorem failing_before_hook:
  assumes fresh: "transformId t \<notin> set (transformLog s)"
    and hooks: "on_beforeUpdate src = pre @ l # post"
    and pre_ok: "fulfillInSeries (map (\<lambda>l. l t) pre) (emitted ''beforeUpdate'' t None) 0 empty_hints (s, tr)
                   = (Inr rs, h1, (s1, tr1))"
    and fails: "l t h1 s1 = (Inl e, h2, s2)"
  shows "dunder_update src t (s, tr) =
           (Inl e, settleInSeries (map (\<lambda>l. l t e) (on_updateFail src)) (emitted ''updateFail'' t (Some e)) 0
                     (s2, tr @ emission ''beforeUpdate'' t None (Suc (length pre))))
         \<and> snd (snd (dunder_update src t (s, tr))) =
             tr @ emission ''beforeUpdate'' t None (Suc (length pre))
                @ emission ''updateFail'' t (Some e) (length (on_updateFail src))
         \<and> (activated src = None \<and> buildTransform src a opts ident = t \<longrightarrow>
              update src a opts ident (s, tr) = (Inl e, snd (dunder_update src t (s, tr))))"
proof -
  let ?evb = "emitted ''beforeUpdate'' t None"
  have tr1: "tr1 = tr @ emission ''beforeUpdate'' t None (length pre)"
    using fulfill_ok_calls [OF pre_ok] by (simp add: emission_def)
  have run: "fulfillInSeries (map (\<lambda>l. l t) (on_beforeUpdate src)) ?evb 0 empty_hints (s, tr)
               = (Inl e, h2, (s2, tr @ emission ''beforeUpdate'' t None (Suc (length pre))))"
    by (simp add: hooks fulfill_append pre_ok fails tr1 emission_Suc)
  have d: "dunder_update src t (s, tr) =
           (Inl e, settleInSeries (map (\<lambda>l. l t e) (on_updateFail src)) (emitted ''updateFail'' t (Some e)) 0
                     (s2, tr @ emission ''beforeUpdate'' t None (Suc (length pre))))"
    using fresh by (simp add: dunder_update_def run)
  have c: "snd (snd (dunder_update src t (s, tr))) =
             tr @ emission ''beforeUpdate'' t None (Suc (length pre))
                @ emission ''updateFail'' t (Some e) (length (on_updateFail src))"
    unfolding d using settle_calls [of "map (\<lambda>l. l t e) (on_updateFail src)" "emitted ''updateFail'' t (Some e)" 0 s2
        "tr @ emission ''beforeUpdate'' t None (Suc (length pre))"]
    by (simp add: emission_def)
  have u: "update src a opts ident (s, tr) = (Inl e, snd (dunder_update src t (s, tr)))"
    if "activated src = None" "buildTransform src a opts ident = t"
    using that fresh by (simp add: update_def underscore_enqueueRequest_update_def d)
  from d c u show ?thesis by blast
qed

theorem failing_before_hook_witness:
  "dunder_update failing_source addJupiter (idle, []) =
     (Inl (Thrown '':(''),
      (idle,
       [Listener ''beforeUpdate'' 0 ''add-jupiter'' None,
        Listener ''beforeUpdate'' 1 ''add-jupiter'' None,
        Listener ''updateFail'' 0 ''add-jupiter'' (Some (Thrown '':(''))]))
   \<and> update failing_source addJupiter None None (idle, []) =
     (Inl (Thrown '':(''),
      (idle,
       [Listener ''beforeUpdate'' 0 ''add-jupiter'' None,
        Listener ''beforeUpdate'' 1 ''add-jupiter'' None,
        Listener ''updateFail'' 0 ''add-jupiter'' (Some (Thrown '':(''))]))"
proof -
  have fresh: "transformId addJupiter \<notin> set (transformLog idle)" by (simp add: idle_def)
  have hooks: "on_beforeUpdate failing_source = [hook_hint] @ hook_reject # [hook_count]"
    by (simp add: failing_source_def)
  have pre_ok: "fulfillInSeries (map (\<lambda>l. l addJupiter) [hook_hint]) (emitted ''beforeUpdate'' addJupiter None) 0
                  empty_hints (idle, [])
                = (Inr [None], \<lparr> hints_data = Some ''from cache'', hints_details = None \<rparr>,
                   (idle, [Listener ''beforeUpdate'' 0 ''add-jupiter'' None]))"
    by (simp add: source_defs)
  have fails: "hook_reject addJupiter \<lparr> hints_data = Some ''from cache'', hints_details = None \<rparr> idle
                = (Inl (Thrown '':(''), \<lparr> hints_data = Some ''from cache'', hints_details = None \<rparr>, idle)"
    by (simp add: hook_reject_def)
  have act: "activated failing_source = None \<and> buildTransform failing_source addJupiter None None = addJupiter"
    by (simp add: failing_source_def example_source_def)
  have fail_listeners: "on_updateFail failing_source = [\<lambda>t e s. (Inr (), s)]"
    by (simp add: failing_source_def example_source_def)
  show ?thesis
    using failing_before_hook [OF fresh hooks pre_ok fails, of addJupiter None None] act
    by (simp add: fail_listeners emission_def emitted_def addJupiter_def)
qed

text \<open>
  Claim C8: in a successful update the phases run in order. Every listener of
  \<^verbatim>\<open>beforeUpdate\<close> completes, in series and in registration order, each on the hints object
  its predecessor left; then \<^verbatim>\<open>_update\<close> runs with those hints; then each transform of the
  response is appended to the log and announced to the \<^verbatim>\<open>transform\<close> listeners, transform by
  transform; then the \<^verbatim>\<open>update\<close> event is emitted; and then the request resolves.

  The listeners succeed and leave the hints \<open>h\<close> and the state \<open>s1\<close>, where the handler
  succeeds with \<open>resp\<close> and leaves the state \<open>s2\<close>. Then \<^verbatim>\<open>__update__\<close> returns the response
  of the handler in the state that results from \<open>s2\<close> by the appends and announcements
  of the transforms of the response, in their order, followed by the \<^verbatim>\<open>update\<close> listeners;
  the calls of the request are exactly these phases in this order; and \<^verbatim>\<open>update\<close>
  resolves with that response, or its data, in that same state.
\<close>

theorem successful_update_order:
  assumes fresh: "transformId t \<notin> set (transformLog s)"
    and before_ok: "fulfillInSeries (map (\<lambda>l. l t) (on_beforeUpdate src)) (emitted ''beforeUpdate'' t None) 0
                      empty_hints (s, tr) = (Inr rs, h, (s1, tr1))"
    and handler_ok: "underscore_update src t h s1 = (Inr resp, s2)"
  shows "dunder_update src t (s, tr) =
           (Inr (with_sources resp rs),
            settleInSeries (map (\<lambda>l. l t (with_sources resp rs)) (on_update src))
              (emitted ''update'' t None) 0
              (transformed src (case transforms resp of None \<Rightarrow> [] | Some ts \<Rightarrow> ts)
                 (s2, tr @ emission ''beforeUpdate'' t None (length (on_beforeUpdate src))
                         @ [Handler (transformId t)])))
         \<and> snd (snd (dunder_update src t (s, tr))) =
             tr @ emission ''beforeUpdate'' t None (length (on_beforeUpdate src))
                @ [Handler (transformId t)]
                @ transform_calls src (transforms resp)
                @ emission ''update'' t None (length (on_update src))
         \<and> (activated src = None \<and> buildTransform src a opts ident = t \<longrightarrow>
              update src a opts ident (s, tr) =
                (Inr (if wants_fullResponse opts then ResultFull (with_sources resp rs)
                      else ResultData (data resp)),
                 snd (dunder_update src t (s, tr))))"
proof -
  define w2 where "w2 = (s2, tr1 @ [Handler (transformId t)])"
  define w3 where "w3 = transformed src (case transforms resp of None \<Rightarrow> [] | Some ts \<Rightarrow> ts) w2"
  define w4 where "w4 = settleInSeries (map (\<lambda>l. l t (with_sources resp rs)) (on_update src))
                          (emitted ''update'' t None) 0 w3"
  have same: "data (with_sources resp rs) = data resp" "transforms (with_sources resp rs) = transforms resp"
    by (simp_all add: with_sources_def)
  have tr1: "tr1 = tr @ emission ''beforeUpdate'' t None (length (on_beforeUpdate src))"
    using fulfill_ok_calls [OF before_ok] by (simp add: emission_def)
  have w3': "(case transforms resp of None \<Rightarrow> w2
              | Some ts \<Rightarrow> if length ts > 0 then transformed src ts w2 else w2) = w3"
    by (cases "transforms resp") (auto simp: w3_def)
  have d: "dunder_update src t (s, tr) = (Inr (with_sources resp rs), w4)"
    unfolding w4_def
    using fresh w3' [unfolded w2_def]
    by (simp add: dunder_update_def before_ok handler_ok Let_def with_sources_def)
  have c3: "snd w3 = tr1 @ [Handler (transformId t)] @ transform_calls src (transforms resp)"
    using transformed_calls [of src "case transforms resp of None \<Rightarrow> [] | Some ts \<Rightarrow> ts" s2
        "tr1 @ [Handler (transformId t)]"]
    by (simp add: w3_def w2_def transform_calls_def)
  have c4: "snd w4 = snd w3 @ emission ''update'' t None (length (on_update src))"
    using settle_calls [of "map (\<lambda>l. l t (with_sources resp rs)) (on_update src)"
        "emitted ''update'' t None" 0 "fst w3" "snd w3"]
    by (simp add: w4_def emission_def)
  have u: "update src a opts ident (s, tr) =
             (Inr (if wants_fullResponse opts then ResultFull (with_sources resp rs)
                   else ResultData (data resp)),
              snd (dunder_update src t (s, tr)))"
    if "activated src = None" "buildTransform src a opts ident = t"
    using that fresh by (simp add: update_def underscore_enqueueRequest_update_def d same)
  show ?thesis
    using d c3 c4 u by (simp add: w4_def w3_def w2_def tr1)
qed

theorem successful_update_order_witness:
  "dunder_update writing_source addJupiter (idle, []) =
     (Inr (FullResponse (Some ''from cache'') None (Some [addJupiter])
             (Some [(''backup'', FullResponse None None None None)])),
      (\<lparr> transformLog = [''add-jupiter''], external = 108 \<rparr>,
       [Listener ''beforeUpdate'' 0 ''add-jupiter'' None,
        Listener ''beforeUpdate'' 1 ''add-jupiter'' None,
        Handler ''add-jupiter'',
        LogAppend ''add-jupiter'',
        Listener ''transform'' 0 ''add-jupiter'' None,
        Listener ''update'' 0 ''add-jupiter'' None]))
   \<and> update writing_source addJupiter None None (idle, []) =
     (Inr (ResultData (Some ''from cache'')),
      (\<lparr> transformLog = [''add-jupiter''], external = 108 \<rparr>,
       [Listener ''beforeUpdate'' 0 ''add-jupiter'' None,
        Listener ''beforeUpdate'' 1 ''add-jupiter'' None,
        Handler ''add-jupiter'',
        LogAppend ''add-jupiter'',
        Listener ''transform'' 0 ''add-jupiter'' None,
        Listener ''update'' 0 ''add-jupiter'' None]))"
proof -
  have fresh: "transformId addJupiter \<notin> set (transformLog idle)" by (simp add: idle_def)
  have before_ok: "fulfillInSeries (map (\<lambda>l. l addJupiter) (on_beforeUpdate writing_source))
                     (emitted ''beforeUpdate'' addJupiter None) 0 empty_hints (idle, [])
                   = (Inr [None, Some (''backup'', FullResponse None None None None)],
                      \<lparr> hints_data = Some ''from cache'', hints_details = None \<rparr>,
                      (\<lparr> transformLog = [], external = 1 \<rparr>,
                       [Listener ''beforeUpdate'' 0 ''add-jupiter'' None,
                        Listener ''beforeUpdate'' 1 ''add-jupiter'' None]))"
    by (simp add: source_defs writing_source_def)
  have handler_ok: "underscore_update writing_source addJupiter
                      \<lparr> hints_data = Some ''from cache'', hints_details = None \<rparr>
                      \<lparr> transformLog = [], external = 1 \<rparr>
                    = (Inr (FullResponse (Some ''from cache'') None (Some [addJupiter]) None),
                       \<lparr> transformLog = [], external = 101 \<rparr>)"
    by (simp add: writing_source_def writing_handler_def)
  have act: "activated writing_source = None
             \<and> buildTransform writing_source addJupiter None None = addJupiter"
    by (simp add: writing_source_def example_source_def)
  have listeners: "on_beforeUpdate writing_source = [hook_hint, hook_count]"
    "on_transform writing_source = [\<lambda>t s. (Inr (), s)]"
    "on_update writing_source = [\<lambda>t r s. (Inr (), s\<lparr> external := external s + 7 \<rparr>)]"
    by (simp_all add: writing_source_def example_source_def)
  show ?thesis
    using successful_update_order [OF fresh before_ok handler_ok, of addJupiter None None] act
    by (simp add: listeners with_sources_def mapNamedFullResponses_def emission_def emitted_def
          wants_fullResponse_def addJupiter_def)
qed

end
